theory Spec2Isabelle
  imports Complex_Main
begin

section \<open>The perftool utilities (perftool/perftool/utils.py)\<close>

text \<open>
  The module drives one benchmarking step: draw a parameter, run the benchmark binary,
  read a duration off its output, and keep the pair in a CSV file whose two column names
  come from \<^verbatim>\<open>config.json\<close>. Everything the functions take from outside (the random
  generator, the subprocess, the configuration file, the CSV files) is an explicit
  argument of the model; every exception is a value of \<open>py_error\<close>.
\<close>

subsection \<open>Python values and exceptions\<close>

text \<open>
  Values as \<^verbatim>\<open>json.load\<close> yields them, which are also the keys and values of the
  dictionaries the functions build and the cells of a CSV table. A float is modelled by the
  real number it stands for (binary64 rounding is not modelled). Values are compared
  structurally. The pairs of a \<open>PDict\<close> have distinct keys.
\<close>

datatype pyval =
    PNone
  | PBool bool
  | PInt int
  | PFloat real
  | PStr string
  | PList "pyval list"
  | PDict "(string \<times> pyval) list"

datatype value_error =
    EmptyRange
  | HeadersMismatch "pyval list"
  | AllScalarValues
  | ArraysLength

datatype py_error =
    ValueError value_error
  | IndexError
  | KeyError string
  | TypeError
  | FileNotFoundError
  | JSONDecodeError
  | CalledProcessError int
  | EmptyDataError

text \<open>A Python dictionary in insertion order: an association list with distinct keys.\<close>

type_synonym pydict = "(pyval \<times> pyval) list"

text \<open>The file \<^verbatim>\<open>config.json\<close> of the working directory, as \<^verbatim>\<open>open\<close> and
  \<^verbatim>\<open>json.load\<close> see it.\<close>

datatype config_file = NoFile | Malformed | Document pyval

text \<open>
  The outside world the functions read:
  \<^item> \<open>random_raw i\<close> is the \<open>i\<close>-th raw number of the process-wide generator;
  \<^item> \<open>np_lognormal mean i\<close> is what line 22 would draw for \<open>mean\<close> at draw \<open>i\<close>;
  \<^item> \<open>check_output args cwd\<close> is the outcome of the subprocess: its standard output as
    text, or the exception (non-zero exit, missing binary, undecodable output);
  \<^item> \<open>config_json\<close> is the configuration file.
\<close>

record env =
  random_raw :: "nat \<Rightarrow> nat"
  np_lognormal :: "int \<Rightarrow> nat \<Rightarrow> real"
  check_output :: "string list \<Rightarrow> string \<Rightarrow> py_error + string"
  config_json :: config_file

subsection \<open>sample\<close>

datatype number = NInt int | NFloat real

text \<open>\<^verbatim>\<open>random.randrange(a, b)\<close>: an element of \<^verbatim>\<open>range(a, b)\<close>, chosen by the
  generator; an empty range raises \<^verbatim>\<open>ValueError\<close>.\<close>

definition randrange :: "env \<Rightarrow> nat \<Rightarrow> int \<Rightarrow> int \<Rightarrow> py_error + int" where
  "randrange e i a b =
     (if b \<le> a then Inl (ValueError EmptyRange)
      else Inr (a + int (random_raw e i mod nat (b - a))))"

definition distribution_sample ::
  "env \<Rightarrow> int \<Rightarrow> int \<Rightarrow> int \<Rightarrow> nat \<Rightarrow> bool \<Rightarrow> py_error + number" where
  "distribution_sample e min_value max_value mean i use_uniform =
     (if use_uniform then
        (case randrange e i min_value max_value of
           Inl err \<Rightarrow> Inl err
         | Inr v \<Rightarrow> Inr (NInt v))
      else Inr (NFloat (np_lognormal e mean i)))"

text \<open>\<^verbatim>\<open>int(x)\<close>: the identity on an integer, truncation towards zero on a float.\<close>

fun py_int :: "number \<Rightarrow> int" where
  "py_int (NInt n) = n"
| "py_int (NFloat r) = (if 0 \<le> r then \<lfloor>r\<rfloor> else \<lceil>r\<rceil>)"

text \<open>
  The loop of lines 24 to 31, with \<open>value\<close> its variable (\<open>None\<close> at first) and \<open>i\<close>
  the number of draws made so far. The inner function is called with its default
  argument, \<^verbatim>\<open>use_uniform=True\<close>. The result is the value and the new draw count.
\<close>

function sample_loop ::
  "env \<Rightarrow> int \<Rightarrow> int \<Rightarrow> int \<Rightarrow> nat \<Rightarrow> int option \<Rightarrow> py_error + int \<times> nat" where
  "sample_loop e min_value max_value mean i value =
     (case value of
        Some v \<Rightarrow> Inr (v, i)
      | None \<Rightarrow>
          (case distribution_sample e min_value max_value mean i True of
             Inl err \<Rightarrow> Inl err
           | Inr x \<Rightarrow> sample_loop e min_value max_value mean (Suc i) (Some (py_int x))))"
  by pat_completeness auto
termination
  by (relation "measure (\<lambda>(e, lo, hi, mean, i, value). if value = None then 1 else 0)") auto

definition sample :: "env \<Rightarrow> int \<Rightarrow> int \<Rightarrow> int \<Rightarrow> nat \<Rightarrow> py_error + int \<times> nat" where
  "sample e min_value max_value mean i = sample_loop e min_value max_value mean i None"

subsection \<open>bench\<close>

text \<open>
  The pattern \<^verbatim>\<open>\d+\.\d+\<close> is a sequence of items, each one character class or one
  literal, taken once or one-or-more times. The benchmark's output is a string of 8-bit
  characters, among which the decimal digits that \<^verbatim>\<open>\d\<close> matches are \<open>0\<close> to \<open>9\<close>.
\<close>

datatype atom = Digit | Lit char

datatype item = Once atom | Plus atom

definition is_digit :: "char \<Rightarrow> bool" where
  "is_digit c = (c \<in> set ''0123456789'')"

fun atom_ok :: "atom \<Rightarrow> char \<Rightarrow> bool" where
  "atom_ok Digit c = is_digit c"
| "atom_ok (Lit x) c = (c = x)"

fun try_first :: "('a \<Rightarrow> 'b option) \<Rightarrow> 'a list \<Rightarrow> 'b option" where
  "try_first f [] = None"
| "try_first f (x # xs) = (case f x of Some y \<Rightarrow> Some y | None \<Rightarrow> try_first f xs)"

text \<open>
  Matching at the start of \<open>s\<close>, as the backtracking matcher of \<^verbatim>\<open>re\<close> does: a
  repetition first takes as many characters as it can and gives them back one at a time
  while the rest of the pattern fails. The result is the matched prefix.
\<close>

fun match_here :: "item list \<Rightarrow> string \<Rightarrow> string option" where
  "match_here [] s = Some []"
| "match_here (Once a # r) s =
     (case s of
        [] \<Rightarrow> None
      | c # cs \<Rightarrow> if atom_ok a c then map_option ((#) c) (match_here r cs) else None)"
| "match_here (Plus a # r) s =
     (let n = length (takeWhile (atom_ok a) s)
      in try_first (\<lambda>k. map_option ((@) (take k s)) (match_here r (drop k s)))
           (rev [1..<Suc n]))"

text \<open>
  \<^verbatim>\<open>re.findall\<close> for a pattern without groups: the matches from left to right, each
  search starting where the previous match ended (one character further after an empty
  match).
\<close>

function findall :: "item list \<Rightarrow> string \<Rightarrow> string list" where
  "findall p [] = (case match_here p [] of None \<Rightarrow> [] | Some m \<Rightarrow> [m])"
| "findall p (c # cs) =
     (case match_here p (c # cs) of
        None \<Rightarrow> findall p cs
      | Some m \<Rightarrow> m # findall p (drop (length m - 1) cs))"
  by pat_completeness auto
termination
  by (relation "measure (\<lambda>(p, s). length s)") auto

definition pattern :: "item list" where
  "pattern = [Plus Digit, Once (Lit CHR ''.''), Plus Digit]"

definition digit_val :: "char \<Rightarrow> nat" where
  "digit_val c = of_char c - 48"

definition nat_of_digits :: "string \<Rightarrow> nat" where
  "nat_of_digits ds = foldl (\<lambda>n c. 10 * n + digit_val c) 0 ds"

text \<open>
  \<^verbatim>\<open>float(s)\<close> for a string \<open>s\<close> of the form digits, point, digits, which is what
  the pattern yields (on such a string \<^verbatim>\<open>float\<close> does not raise): the integer part
  plus the fraction.
\<close>

definition py_float :: "string \<Rightarrow> real" where
  "py_float s =
     (let a = takeWhile is_digit s; b = drop (Suc (length a)) s
      in real (nat_of_digits a) + real (nat_of_digits b) / 10 ^ length b)"

text \<open>\<^verbatim>\<open>f"{parameter}"\<close>: the decimal digits of an integer, with a minus sign when negative.\<close>

fun str_nat :: "nat \<Rightarrow> string" where
  "str_nat n =
     (if n < 10 then [char_of (48 + n)]
      else str_nat (n div 10) @ [char_of (48 + n mod 10)])"

definition str_int :: "int \<Rightarrow> string" where
  "str_int n = (if n < 0 then CHR ''-'' # str_nat (nat (- n)) else str_nat (nat n))"

definition bench :: "env \<Rightarrow> string \<Rightarrow> int \<Rightarrow> string \<Rightarrow> py_error + real" where
  "bench e bench_function parameter cli_repo =
     (case check_output e
             [''cargo'', ''run'', ''--release'', ''bench'', bench_function, str_int parameter]
             cli_repo of
        Inl err \<Rightarrow> Inl err
      | Inr stdout \<Rightarrow>
          (case findall pattern stdout of
             [] \<Rightarrow> Inl IndexError
           | time_taken # _ \<Rightarrow> Inr (py_float time_taken)))"

subsection \<open>load\_bench\_function\_data\<close>

text \<open>Subscription \<^verbatim>\<open>v[k]\<close> with a string key: a dictionary without the key raises
  \<^verbatim>\<open>KeyError\<close>, a value of any other type (list, string, number, null) raises
  \<^verbatim>\<open>TypeError\<close>.\<close>

fun getitem :: "pyval \<Rightarrow> string \<Rightarrow> py_error + pyval" where
  "getitem (PDict kvs) k = (case map_of kvs k of None \<Rightarrow> Inl (KeyError k) | Some v \<Rightarrow> Inr v)"
| "getitem _ k = Inl TypeError"

definition load_bench_function_data :: "env \<Rightarrow> string \<Rightarrow> py_error + pyval" where
  "load_bench_function_data e bench_function =
     (case config_json e of
        NoFile \<Rightarrow> Inl FileNotFoundError
      | Malformed \<Rightarrow> Inl JSONDecodeError
      | Document config \<Rightarrow>
          (case getitem config ''benches'' of
             Inl err \<Rightarrow> Inl err
           | Inr benches \<Rightarrow> getitem benches bench_function))"

subsection \<open>sample\_and\_bench\<close>

fun hashable :: "pyval \<Rightarrow> bool" where
  "hashable (PList _) = False"
| "hashable (PDict _) = False"
| "hashable _ = True"

text \<open>\<^verbatim>\<open>d[k] = v\<close> on a dictionary in insertion order: a key already there keeps its
  place and takes the new value.\<close>

fun dict_set :: "pydict \<Rightarrow> pyval \<Rightarrow> pyval \<Rightarrow> pydict" where
  "dict_set [] k v = [(k, v)]"
| "dict_set ((k', v') # d) k v = (if k' = k then (k', v) # d else (k', v') # dict_set d k v)"

text \<open>The dictionary display \<^verbatim>\<open>{k1: v1, k2: v2}\<close>: keys and values are evaluated
  first, then inserted in order; a key that cannot be hashed raises \<^verbatim>\<open>TypeError\<close>.\<close>

definition dict_display :: "pyval \<Rightarrow> pyval \<Rightarrow> pyval \<Rightarrow> pyval \<Rightarrow> py_error + pydict" where
  "dict_display k1 v1 k2 v2 =
     (if hashable k1 \<and> hashable k2 then Inr (dict_set (dict_set [] k1 v1) k2 v2)
      else Inl TypeError)"

definition sample_and_bench ::
  "env \<Rightarrow> string \<Rightarrow> string \<Rightarrow> int \<Rightarrow> int \<Rightarrow> nat \<Rightarrow> py_error + pydict \<times> nat" where
  "sample_and_bench e cli_repo bench_function min_value max_value i =
     (case sample e min_value max_value 0 i of
        Inl err \<Rightarrow> Inl err
      | Inr (parameter, i') \<Rightarrow>
     (case bench e bench_function parameter cli_repo of
        Inl err \<Rightarrow> Inl err
      | Inr output \<Rightarrow>
     (case load_bench_function_data e bench_function of
        Inl err \<Rightarrow> Inl err
      | Inr bench_data \<Rightarrow>
     (case getitem bench_data ''parameter'' of
        Inl err \<Rightarrow> Inl err
      | Inr parameter_name \<Rightarrow>
     (case getitem bench_data ''output'' of
        Inl err \<Rightarrow> Inl err
      | Inr output_name \<Rightarrow>
     (case dict_display parameter_name (PInt parameter) output_name (PFloat output) of
        Inl err \<Rightarrow> Inl err
      | Inr d \<Rightarrow> Inr (d, i')))))))"

subsection \<open>The CSV files\<close>

text \<open>
  A CSV file is modelled by the table of its lines: a list of rows, each the list of its
  cells, the first row being the header. How pandas spells a cell as text (quoting, the
  digits of a float) and how it renames duplicate or blank header names when reading are
  not modelled; nor are directories and permissions: a path either names a file or is
  free, and writing to a free path creates the file.
\<close>

type_synonym csv = "pyval list list"

type_synonym files = "string \<Rightarrow> csv option"

text \<open>\<^verbatim>\<open>pd.read_csv(path, nrows=0).columns.tolist()\<close>: the names in the header row; a
  file without any line raises \<^verbatim>\<open>EmptyDataError\<close>.\<close>

definition read_csv_columns :: "csv \<Rightarrow> py_error + pyval list" where
  "read_csv_columns rows = (case rows of [] \<Rightarrow> Inl EmptyDataError | h # _ \<Rightarrow> Inr h)"

text \<open>
  A function that writes returns its outcome together with the files as it leaves them,
  so that what an exception leaves behind can be stated.
\<close>

definition init_csv :: "env \<Rightarrow> string \<Rightarrow> string \<Rightarrow> files \<Rightarrow> (py_error + unit) \<times> files" where
  "init_csv e csv_file_path bench_function fs =
     (case load_bench_function_data e bench_function of
        Inl err \<Rightarrow> (Inl err, fs)
      | Inr bench_function_data \<Rightarrow>
     (case getitem bench_function_data ''parameter'' of
        Inl err \<Rightarrow> (Inl err, fs)
      | Inr parameter_name \<Rightarrow>
     (case getitem bench_function_data ''output'' of
        Inl err \<Rightarrow> (Inl err, fs)
      | Inr output_name \<Rightarrow>
     (let headers = [parameter_name, output_name] in
      case fs csv_file_path of
        Some rows \<Rightarrow>
          (case read_csv_columns rows of
             Inl err \<Rightarrow> (Inl err, fs)
           | Inr existing_headers \<Rightarrow>
               if \<not> list_all hashable headers then (Inl TypeError, fs)
               else if set headers \<noteq> set existing_headers
               then (Inl (ValueError (HeadersMismatch existing_headers)), fs)
               else (Inr (), fs))
      | None \<Rightarrow> (Inr (), fs(csv_file_path \<mapsto> [headers]))))))"

text \<open>
  \<^verbatim>\<open>pd.DataFrame(data)\<close> for a dictionary, as the rows of the frame. A value that is
  a list is a column; any other value is a scalar, repeated down the column. pandas
  refuses a dictionary of scalars only ("If using all scalar values, you must pass an
  index") and columns of different lengths ("All arrays must be of the same length").
  Values that are themselves dictionaries, which pandas aligns by their keys, are not
  considered.
\<close>

fun column_length :: "pyval \<Rightarrow> nat option" where
  "column_length (PList xs) = Some (length xs)"
| "column_length _ = None"

fun cell :: "nat \<Rightarrow> pyval \<Rightarrow> pyval" where
  "cell j (PList xs) = xs ! j"
| "cell j v = v"

definition DataFrame :: "pydict \<Rightarrow> py_error + csv" where
  "DataFrame data =
     (if data = [] then Inr []
      else case List.map_filter (\<lambda>(k, v). column_length v) data of
        [] \<Rightarrow> Inl (ValueError AllScalarValues)
      | n # ns \<Rightarrow>
          if \<exists>m \<in> set ns. m \<noteq> n then Inl (ValueError ArraysLength)
          else Inr (map (\<lambda>j. map (\<lambda>(k, v). cell j v) data) [0..<n]))"

text \<open>\<^verbatim>\<open>open(path, "a")\<close> creates the file when there is none;
  \<^verbatim>\<open>to_csv(f, header=False, index=False)\<close> writes the rows of the frame, and only
  them, at the end.\<close>

definition write_into_csv :: "pydict \<Rightarrow> string \<Rightarrow> files \<Rightarrow> (py_error + unit) \<times> files" where
  "write_into_csv data csv_file_path fs =
     (case DataFrame data of
        Inl err \<Rightarrow> (Inl err, fs)
      | Inr df \<Rightarrow>
          (let f = (case fs csv_file_path of None \<Rightarrow> [] | Some rows \<Rightarrow> rows)
           in (Inr (), fs(csv_file_path \<mapsto> f @ df))))"

subsection \<open>Decimal numbers in a text\<close>

text \<open>
  What the specification calls a decimal number: digits, a point, digits.
  \<open>decimal_at text i n\<close> says that the \<open>n\<close> characters of \<open>text\<close> from position
  \<open>i\<close> on are one.
\<close>

definition is_decimal :: "string \<Rightarrow> bool" where
  "is_decimal v =
     (let a = takeWhile is_digit v
      in a \<noteq> [] \<and>
         (case drop (length a) v of
            [] \<Rightarrow> False
          | c # b \<Rightarrow> c = CHR ''.'' \<and> b \<noteq> [] \<and> list_all is_digit b))"

definition decimal_at :: "string \<Rightarrow> nat \<Rightarrow> nat \<Rightarrow> bool" where
  "decimal_at text i n = (i + n \<le> length text \<and> is_decimal (take n (drop i text)))"

text \<open>
  The number a decimal numeral stands for, read off its positional notation: left of the
  point the digit \<open>d\<close> with \<open>k\<close> digits after it counts \<open>d * 10 ^ k\<close>; right of
  the point each further place counts a tenth of the one before. A digit counts its
  position in the sequence \<open>0123456789\<close>.
\<close>

definition digit_number :: "char \<Rightarrow> nat" where
  "digit_number c = length (takeWhile (\<lambda>d. d \<noteq> c) ''0123456789'')"

fun integer_value :: "string \<Rightarrow> nat" where
  "integer_value [] = 0"
| "integer_value (c # cs) = digit_number c * 10 ^ length cs + integer_value cs"

fun fraction_value :: "string \<Rightarrow> real" where
  "fraction_value [] = 0"
| "fraction_value (c # cs) = (real (digit_number c) + fraction_value cs) / 10"

definition decimal_value :: "string \<Rightarrow> real" where
  "decimal_value v =
     (let a = takeWhile (\<lambda>c. c \<noteq> CHR ''.'') v; b = drop (Suc (length a)) v
      in real (integer_value a) + fraction_value b)"

text \<open>The longest decimal number that \<open>s\<close> starts with, if any.\<close>

definition decimal_prefix :: "string \<Rightarrow> string option" where
  "decimal_prefix s =
     (let a = takeWhile is_digit s
      in case drop (length a) s of
           [] \<Rightarrow> None
         | c # t \<Rightarrow>
             (let b = takeWhile is_digit t
              in if a \<noteq> [] \<and> c = CHR ''.'' \<and> b \<noteq> [] then Some (a @ c # b) else None))"

subsection \<open>Example environments\<close>

definition env_uniform :: env where
  "env_uniform = \<lparr>random_raw = (\<lambda>i. 7), np_lognormal = (\<lambda>m i. 0),
     check_output = (\<lambda>args cwd. Inl (CalledProcessError 1)), config_json = NoFile\<rparr>"

definition env_time :: env where
  "env_time = \<lparr>random_raw = (\<lambda>i. 7), np_lognormal = (\<lambda>m i. 0),
     check_output = (\<lambda>args cwd. Inr ''time: 12.345 ms''), config_json = NoFile\<rparr>"

definition env_none :: env where
  "env_none = \<lparr>random_raw = (\<lambda>i. 7), np_lognormal = (\<lambda>m i. 0),
     check_output = (\<lambda>args cwd. Inr ''no numbers here''), config_json = Malformed\<rparr>"

definition config_sort_vec :: pyval where
  "config_sort_vec =
     PDict [(''benches'',
       PDict [(''sort_vec'', PDict [(''parameter'', PStr ''size''), (''output'', PStr ''time_ms'')])])]"

definition env_elapsed :: env where
  "env_elapsed = \<lparr>random_raw = (\<lambda>i. 7), np_lognormal = (\<lambda>m i. 0),
     check_output = (\<lambda>args cwd. Inr ''elapsed: 3.21s''),
     config_json = Document config_sort_vec\<rparr>"

definition fs_empty :: files where
  "fs_empty = Map.empty"

definition fs_header :: files where
  "fs_header = Map.empty(''data/sort_vec/abc.csv'' \<mapsto> [[PStr ''size'', PStr ''time_ms'']])"

definition fs_swapped :: files where
  "fs_swapped = Map.empty(''data/sort_vec/abc.csv'' \<mapsto>
     [[PStr ''time_ms'', PStr ''size''], [PFloat 1.5, PInt 10]])"

definition fs_other :: files where
  "fs_other = Map.empty(''data/sort_vec/abc.csv'' \<mapsto>
     [[PStr ''size'', PStr ''seconds''], [PInt 10, PFloat 1.5]])"

section \<open>Properties\<close>

lemma sample_uniform:
  "sample e lo hi mean i =
     (if hi \<le> lo then Inl (ValueError EmptyRange)
      else Inr (lo + int (random_raw e i mod nat (hi - lo)), Suc i))"
  by (simp add: sample_def distribution_sample_def randrange_def)

lemma sample_value:
  assumes "min_value < max_value"
  shows "\<exists>v. sample e min_value max_value mean i = Inr (v, Suc i)
            \<and> min_value \<le> v \<and> v < max_value"
proof -
  let ?n = "nat (max_value - min_value)"
  have pos: "0 < ?n" using assms by simp
  have "random_raw e i mod ?n < ?n" using pos by simp
  then have "int (random_raw e i mod ?n) < max_value - min_value" using assms by linarith
  then show ?thesis using assms by (simp add: sample_uniform)
qed

text \<open>
  C2. For every pair of integers \<open>min < max\<close>, \<open>sample(min, max)\<close> returns (the loop
  ends, after one draw) an integer \<open>v\<close> with \<open>min \<le> v < max\<close>.
\<close>

theorem sample_in_range:
  assumes "min_value < max_value"
  shows "\<exists>v. sample e min_value max_value 0 i = Inr (v, Suc i)
            \<and> min_value \<le> v \<and> v < max_value"
  using assms by (rule sample_value)

theorem sample_in_range_witness:
  "(3::int) < 10
   \<and> (\<exists>v. sample env_uniform 3 10 0 0 = Inr (v, Suc 0) \<and> 3 \<le> v \<and> v < 10)"
proof -
  have h: "(3::int) < 10" by simp
  show ?thesis using h sample_in_range [OF h, of env_uniform 0] by simp
qed

subsection \<open>The pattern finds the first decimal number\<close>

lemma try_first_None: "(\<And>x. x \<in> set xs \<Longrightarrow> f x = None) \<Longrightarrow> try_first f xs = None"
  by (induction xs) auto

lemma atom_ok_Digit: "atom_ok Digit = is_digit"
  by (rule ext) simp

lemma rev_upt_1: "rev [Suc 0..<Suc (Suc n)] = Suc n # rev [Suc 0..<Suc n]"
  by simp

lemma take_length_takeWhile: "take (length (takeWhile P xs)) xs = takeWhile P xs"
  by (induction xs) auto

lemma match_digits:
  "match_here [Plus Digit] t =
     (if takeWhile is_digit t = [] then None else Some (takeWhile is_digit t))"
proof (cases "length (takeWhile is_digit t)")
  case 0
  then show ?thesis by (simp add: atom_ok_Digit)
next
  case (Suc n)
  then have ne: "takeWhile is_digit t \<noteq> []" by auto
  have "take (Suc n) t = takeWhile is_digit t"
    using take_length_takeWhile [of is_digit t] Suc by simp
  then show ?thesis using Suc ne
    by (simp add: atom_ok_Digit del: upt_Suc add: rev_upt_1)
qed

lemma match_tail:
  "match_here [Once (Lit CHR ''.''), Plus Digit] s =
     (case s of
        [] \<Rightarrow> None
      | c # t \<Rightarrow>
          if c = CHR ''.'' \<and> takeWhile is_digit t \<noteq> [] then Some (c # takeWhile is_digit t)
          else None)"
  using match_digits by (cases s) auto

lemma not_digit_dot: "\<not> is_digit CHR ''.''"
  by (simp add: is_digit_def)

lemma match_tail_digit:
  assumes "k < length (takeWhile is_digit s)"
  shows "match_here [Once (Lit CHR ''.''), Plus Digit] (drop k s) = None"
proof -
  have k: "k < length s" using assms length_takeWhile_le [of is_digit s] by linarith
  have "takeWhile is_digit s ! k \<in> set (takeWhile is_digit s)" using assms by simp
  then have "is_digit (takeWhile is_digit s ! k)" by (rule set_takeWhileD [THEN conjunct2])
  then have "is_digit (s ! k)" using assms by (simp add: takeWhile_nth)
  then have "s ! k \<noteq> CHR ''.''" using not_digit_dot by auto
  moreover have "drop k s = s ! k # drop (Suc k) s" using k by (simp add: Cons_nth_drop_Suc)
  ultimately show ?thesis by (simp add: match_tail del: match_here.simps)
qed

lemma match_pattern: "match_here pattern s = decimal_prefix s"
proof (cases "length (takeWhile is_digit s)")
  case 0
  then show ?thesis
    by (simp add: pattern_def decimal_prefix_def atom_ok_Digit split: list.splits)
next
  case (Suc n)
  let ?a = "takeWhile is_digit s"
  let ?tl = "[Once (Lit CHR ''.''), Plus Digit]"
  let ?f = "\<lambda>k. map_option ((@) (take k s)) (match_here ?tl (drop k s))"
  have ne: "?a \<noteq> []" using Suc by auto
  have tk: "take (Suc n) s = ?a" using take_length_takeWhile [of is_digit s] Suc by simp
  have rest: "try_first ?f (rev [1..<Suc n]) = None"
  proof (rule try_first_None)
    fix k assume "k \<in> set (rev [1..<Suc n])"
    then have "k < length ?a" using Suc by auto
    then show "?f k = None" by (simp add: match_tail_digit del: match_here.simps)
  qed
  have unfold: "match_here pattern s =
      (case ?f (Suc n) of Some y \<Rightarrow> Some y | None \<Rightarrow> try_first ?f (rev [1..<Suc n]))"
  proof -
    have "match_here pattern s = try_first ?f (rev [1..<Suc (Suc n)])"
      unfolding pattern_def using Suc by (simp only: match_here.simps(3) Let_def atom_ok_Digit)
    also have "rev [1..<Suc (Suc n)] = Suc n # rev [1..<Suc n]" by simp
    finally show ?thesis by (simp only: try_first.simps)
  qed
  have "?f (Suc n) = decimal_prefix s"
    using Suc ne tk
    by (simp add: match_tail decimal_prefix_def Let_def del: match_here.simps split: list.splits)
  then show ?thesis using unfold rest by (simp split: option.splits)
qed

lemma dropWhile_head: "case dropWhile P t of [] \<Rightarrow> True | c # _ \<Rightarrow> \<not> P c"
  by (induction t) auto

lemma takeWhile_digits_dot:
  assumes "\<forall>c \<in> set a. is_digit c"
  shows "takeWhile is_digit (a @ CHR ''.'' # r) = a"
  using assms not_digit_dot by (simp add: takeWhile_append2)

lemma is_decimal_iff:
  "is_decimal w \<longleftrightarrow>
     (\<exists>a b. w = a @ CHR ''.'' # b \<and> a \<noteq> [] \<and> b \<noteq> []
        \<and> (\<forall>c \<in> set a. is_digit c) \<and> (\<forall>c \<in> set b. is_digit c))"
proof
  assume d: "is_decimal w"
  let ?a = "takeWhile is_digit w"
  from d obtain b where b: "drop (length ?a) w = CHR ''.'' # b" "b \<noteq> []" "list_all is_digit b"
    and a: "?a \<noteq> []"
    by (auto simp: is_decimal_def Let_def split: list.splits)
  have "w = take (length ?a) w @ drop (length ?a) w" by simp
  then have "w = ?a @ CHR ''.'' # b" using b(1) by (simp only: take_length_takeWhile)
  moreover have "\<forall>c \<in> set ?a. is_digit c" by (auto dest: set_takeWhileD)
  ultimately show "\<exists>a b. w = a @ CHR ''.'' # b \<and> a \<noteq> [] \<and> b \<noteq> []
        \<and> (\<forall>c \<in> set a. is_digit c) \<and> (\<forall>c \<in> set b. is_digit c)"
    using a b(2,3) by (auto simp: list_all_iff)
next
  assume "\<exists>a b. w = a @ CHR ''.'' # b \<and> a \<noteq> [] \<and> b \<noteq> []
        \<and> (\<forall>c \<in> set a. is_digit c) \<and> (\<forall>c \<in> set b. is_digit c)"
  then obtain a b where w: "w = a @ CHR ''.'' # b" and ne: "a \<noteq> []" "b \<noteq> []"
    and da: "\<forall>c \<in> set a. is_digit c" and db: "\<forall>c \<in> set b. is_digit c" by blast
  have "takeWhile is_digit w = a" using w da by (simp only: takeWhile_digits_dot)
  then show "is_decimal w" using w ne db by (simp add: is_decimal_def list_all_iff)
qed

lemma decimal_prefix_iff:
  "decimal_prefix s = Some m \<longleftrightarrow>
     (\<exists>a b x. s = a @ CHR ''.'' # b @ x \<and> m = a @ CHR ''.'' # b \<and> a \<noteq> [] \<and> b \<noteq> []
        \<and> (\<forall>c \<in> set a. is_digit c) \<and> (\<forall>c \<in> set b. is_digit c)
        \<and> (case x of [] \<Rightarrow> True | c # _ \<Rightarrow> \<not> is_digit c))"
proof
  assume d: "decimal_prefix s = Some m"
  let ?a = "takeWhile is_digit s"
  from d obtain t where t: "drop (length ?a) s = CHR ''.'' # t" "takeWhile is_digit t \<noteq> []"
    and a: "?a \<noteq> []" and m: "m = ?a @ CHR ''.'' # takeWhile is_digit t"
    by (auto simp: decimal_prefix_def Let_def split: list.splits if_splits)
  have "s = take (length ?a) s @ drop (length ?a) s" by simp
  then have "s = ?a @ CHR ''.'' # t" using t(1) by (simp only: take_length_takeWhile)
  then have "s = ?a @ CHR ''.'' # takeWhile is_digit t @ dropWhile is_digit t" by simp
  moreover have "\<forall>c \<in> set ?a. is_digit c" by (auto dest: set_takeWhileD)
  moreover have "\<forall>c \<in> set (takeWhile is_digit t). is_digit c" by (auto dest: set_takeWhileD)
  moreover have "case dropWhile is_digit t of [] \<Rightarrow> True | c # _ \<Rightarrow> \<not> is_digit c"
    by (rule dropWhile_head)
  ultimately show "\<exists>a b x. s = a @ CHR ''.'' # b @ x \<and> m = a @ CHR ''.'' # b \<and> a \<noteq> [] \<and> b \<noteq> []
        \<and> (\<forall>c \<in> set a. is_digit c) \<and> (\<forall>c \<in> set b. is_digit c)
        \<and> (case x of [] \<Rightarrow> True | c # _ \<Rightarrow> \<not> is_digit c)"
    using a t(2) m by blast
next
  assume "\<exists>a b x. s = a @ CHR ''.'' # b @ x \<and> m = a @ CHR ''.'' # b \<and> a \<noteq> [] \<and> b \<noteq> []
        \<and> (\<forall>c \<in> set a. is_digit c) \<and> (\<forall>c \<in> set b. is_digit c)
        \<and> (case x of [] \<Rightarrow> True | c # _ \<Rightarrow> \<not> is_digit c)"
  then obtain a b x where s: "s = a @ CHR ''.'' # b @ x" and m: "m = a @ CHR ''.'' # b"
    and ne: "a \<noteq> []" "b \<noteq> []"
    and da: "\<forall>c \<in> set a. is_digit c" and db: "\<forall>c \<in> set b. is_digit c"
    and x: "case x of [] \<Rightarrow> True | c # _ \<Rightarrow> \<not> is_digit c" by blast
  have ta: "takeWhile is_digit s = a" using s da by (simp only: takeWhile_digits_dot)
  have "takeWhile is_digit (b @ x) = b @ takeWhile is_digit x" using db by (simp add: takeWhile_append2)
  also have "takeWhile is_digit x = []" using x by (cases x) auto
  finally have tb: "takeWhile is_digit (b @ x) = b" by simp
  show "decimal_prefix s = Some m"
    unfolding decimal_prefix_def ta using s m ne tb by simp
qed

lemma decimal_prefix_sound:
  assumes "decimal_prefix s = Some m"
  shows "is_decimal m" and "take (length m) s = m" and "length m \<le> length s" and "m \<noteq> []"
proof -
  from assms obtain a b x where s: "s = a @ CHR ''.'' # b @ x" and m: "m = a @ CHR ''.'' # b"
    and ne: "a \<noteq> []" "b \<noteq> []"
    and da: "\<forall>c \<in> set a. is_digit c" and db: "\<forall>c \<in> set b. is_digit c"
    unfolding decimal_prefix_iff by blast
  show "is_decimal m" unfolding is_decimal_iff using m ne da db by blast
  show "take (length m) s = m" using s m by simp
  show "length m \<le> length s" using s m by simp
  show "m \<noteq> []" using m by simp
qed

lemma decimal_prefix_complete:
  assumes "is_decimal w" and "s = w @ y"
  shows "\<exists>m. decimal_prefix s = Some m \<and> length w \<le> length m"
proof -
  from assms(1) obtain a b where w: "w = a @ CHR ''.'' # b" and ne: "a \<noteq> []" "b \<noteq> []"
    and da: "\<forall>c \<in> set a. is_digit c" and db: "\<forall>c \<in> set b. is_digit c"
    unfolding is_decimal_iff by blast
  let ?b = "b @ takeWhile is_digit y"
  have "s = a @ CHR ''.'' # ?b @ dropWhile is_digit y" using w assms(2) by simp
  moreover have "\<forall>c \<in> set ?b. is_digit c" using db by (auto dest: set_takeWhileD)
  moreover have "case dropWhile is_digit y of [] \<Rightarrow> True | c # _ \<Rightarrow> \<not> is_digit c"
    by (rule dropWhile_head)
  ultimately have "decimal_prefix s = Some (a @ CHR ''.'' # ?b)"
    unfolding decimal_prefix_iff using ne da by blast
  then show ?thesis using w by simp
qed

lemma findall_first:
  assumes "\<forall>i<j. match_here p (drop i s) = None"
    and "match_here p (drop j s) = Some m" and "j < length s"
  shows "\<exists>rest. findall p s = m # rest"
  using assms
proof (induction s arbitrary: j)
  case Nil
  then show ?case by simp
next
  case (Cons c cs)
  show ?case
  proof (cases j)
    case 0
    then show ?thesis using Cons.prems(2) by simp
  next
    case (Suc k)
    have "match_here p (c # cs) = None" using Cons.prems(1) Suc by force
    moreover have "\<forall>i<k. match_here p (drop i cs) = None"
    proof (intro allI impI)
      fix i assume "i < k"
      then have "Suc i < j" using Suc by simp
      then have "match_here p (drop (Suc i) (c # cs)) = None" using Cons.prems(1) by blast
      then show "match_here p (drop i cs) = None" by simp
    qed
    moreover have "match_here p (drop k cs) = Some m" using Cons.prems(2) Suc by simp
    moreover have "k < length cs" using Cons.prems(3) Suc by simp
    ultimately show ?thesis using Cons.IH [of k] by simp
  qed
qed

lemma findall_none:
  assumes "\<forall>i\<le>length s. match_here p (drop i s) = None"
  shows "findall p s = []"
  using assms
proof (induction s)
  case Nil
  then show ?case by simp
next
  case (Cons c cs)
  have "match_here p (c # cs) = None" using Cons.prems by force
  moreover have "\<forall>i\<le>length cs. match_here p (drop i cs) = None"
  proof (intro allI impI)
    fix i assume "i \<le> length cs"
    then have "match_here p (drop (Suc i) (c # cs)) = None" using Cons.prems by force
    then show "match_here p (drop i cs) = None" by simp
  qed
  ultimately show ?case using Cons.IH by simp
qed

lemma decimal_at_prefix:
  assumes "decimal_at text i n"
  shows "\<exists>m. decimal_prefix (drop i text) = Some m \<and> n \<le> length m"
proof -
  let ?w = "take n (drop i text)"
  have len: "length ?w = n" using assms by (auto simp: decimal_at_def)
  have "drop i text = ?w @ drop n (drop i text)" by (rule append_take_drop_id [symmetric])
  moreover have "is_decimal ?w" using assms by (simp add: decimal_at_def)
  ultimately obtain m where "decimal_prefix (drop i text) = Some m" "length ?w \<le> length m"
    using decimal_prefix_complete by blast
  then show ?thesis using len by auto
qed

lemma prefix_decimal_at:
  assumes "decimal_prefix (drop j text) = Some m"
  shows "decimal_at text j (length m)" and "take (length m) (drop j text) = m"
    and "j < length text"
proof -
  note s = decimal_prefix_sound [OF assms]
  show t: "take (length m) (drop j text) = m" by (rule s(2))
  have "length m \<le> length text - j" using s(3) by simp
  moreover have "0 < length m" using s(4) by simp
  ultimately show j: "j < length text" by linarith
  then have "j + length m \<le> length text" using \<open>length m \<le> length text - j\<close> by linarith
  then show "decimal_at text j (length m)" using s(1) t by (simp add: decimal_at_def)
qed

lemma decimal_at_has_digit:
  assumes "decimal_at text i n"
  shows "\<exists>c \<in> set text. is_digit c"
proof -
  from assms obtain a b where w: "take n (drop i text) = a @ CHR ''.'' # b" and "a \<noteq> []"
    and da: "\<forall>c \<in> set a. is_digit c"
    unfolding decimal_at_def is_decimal_iff by blast
  then obtain c where "c \<in> set a" "is_digit c" by (cases a) auto
  then have "c \<in> set (take n (drop i text))" using w by simp
  then have "c \<in> set text" by (meson in_set_dropD in_set_takeD)
  then show ?thesis using \<open>is_digit c\<close> by blast
qed

text \<open>
  \<open>float\<close> on a decimal numeral, as modelled by \<open>py_float\<close>, is the number the
  numeral stands for.
\<close>

lemma digit_val_number:
  assumes "is_digit c"
  shows "digit_val c = digit_number c"
proof -
  have "c = CHR ''0'' \<or> c = CHR ''1'' \<or> c = CHR ''2'' \<or> c = CHR ''3'' \<or> c = CHR ''4''
      \<or> c = CHR ''5'' \<or> c = CHR ''6'' \<or> c = CHR ''7'' \<or> c = CHR ''8'' \<or> c = CHR ''9''"
    using assms by (simp add: is_digit_def)
  then show ?thesis
    by (elim disjE) (simp_all add: digit_val_def digit_number_def)
qed

lemma foldl_digits:
  assumes "\<forall>c \<in> set ds. is_digit c"
  shows "foldl (\<lambda>n c. 10 * n + digit_val c) n ds = n * 10 ^ length ds + integer_value ds"
  using assms
proof (induction ds arbitrary: n)
  case Nil
  then show ?case by simp
next
  case (Cons c cs)
  then show ?case by (simp add: digit_val_number algebra_simps)
qed

lemma nat_of_digits_value:
  assumes "\<forall>c \<in> set ds. is_digit c"
  shows "nat_of_digits ds = integer_value ds"
  unfolding nat_of_digits_def using foldl_digits [OF assms, of 0] by simp

lemma integer_over_power:
  "real (integer_value ds) / 10 ^ length ds = fraction_value ds"
proof (induction ds)
  case Nil
  show ?case by simp
next
  case (Cons c cs)
  let ?p = "(10::real) ^ length cs"
  have p: "?p \<noteq> 0" by simp
  have "real (integer_value (c # cs)) / 10 ^ length (c # cs)
      = (real (digit_number c) * ?p + real (integer_value cs)) / (10 * ?p)" by simp
  also have "\<dots> = (real (digit_number c) * ?p / ?p + real (integer_value cs) / ?p) / 10"
    by (simp add: add_divide_distrib)
  also have "\<dots> = (real (digit_number c) + real (integer_value cs) / ?p) / 10"
    using p by simp
  also have "\<dots> = fraction_value (c # cs)" using Cons.IH by simp
  finally show ?case .
qed

lemma py_float_decimal_value:
  assumes "is_decimal m"
  shows "py_float m = decimal_value m"
proof -
  from assms obtain a b where m: "m = a @ CHR ''.'' # b"
    and da: "\<forall>c \<in> set a. is_digit c" and db: "\<forall>c \<in> set b. is_digit c"
    unfolding is_decimal_iff by blast
  have ta: "takeWhile is_digit m = a" using m da by (simp only: takeWhile_digits_dot)
  have "\<forall>c \<in> set a. c \<noteq> CHR ''.''" using da not_digit_dot by auto
  then have tb: "takeWhile (\<lambda>c. c \<noteq> CHR ''.'') m = a" using m by (simp add: takeWhile_append2)
  have "py_float m = real (nat_of_digits a) + real (nat_of_digits b) / 10 ^ length b"
    unfolding py_float_def ta using m by simp
  also have "\<dots> = real (integer_value a) + fraction_value b"
    using da db by (simp add: nat_of_digits_value integer_over_power)
  also have "\<dots> = decimal_value m" unfolding decimal_value_def tb using m by simp
  finally show ?thesis .
qed

text \<open>
  C7. For every benchmark output text that contains a decimal number (digits, point,
  digits), the parser of \<open>bench\<close> returns the value of the first one: the one that
  starts leftmost and, from there, reaches furthest; the value is the number its digits
  stand for. On "time: 12.345 ms" that is 12.345.
\<close>

theorem bench_first_decimal:
  assumes out: "check_output e
                  [''cargo'', ''run'', ''--release'', ''bench'', bench_function, str_int parameter]
                  cli_repo = Inr text"
    and occ: "decimal_at text i n"
  shows "\<exists>j m. decimal_at text j m
           \<and> (\<forall>i' n'. decimal_at text i' n' \<longrightarrow> j \<le> i' \<and> (i' = j \<longrightarrow> n' \<le> m))
           \<and> bench e bench_function parameter cli_repo
               = Inr (decimal_value (take m (drop j text)))"
proof -
  let ?P = "\<lambda>k. decimal_prefix (drop k text) \<noteq> None"
  define j where "j = (LEAST k. ?P k)"
  have "?P i" using decimal_at_prefix [OF occ] by auto
  then have Pj: "?P j" unfolding j_def by (rule LeastI)
  then obtain mm where mm: "decimal_prefix (drop j text) = Some mm" by auto
  have least: "\<And>k. ?P k \<Longrightarrow> j \<le> k" unfolding j_def by (rule Least_le)
  have before: "\<forall>k<j. match_here pattern (drop k text) = None"
  proof (intro allI impI)
    fix k assume "k < j"
    then have "\<not> ?P k" unfolding j_def by (rule not_less_Least)
    then have "decimal_prefix (drop k text) = None" by blast
    then show "match_here pattern (drop k text) = None" by (simp only: match_pattern)
  qed
  have here: "match_here pattern (drop j text) = Some mm" using mm by (simp add: match_pattern)
  note at = prefix_decimal_at [OF mm]
  obtain rest where fa: "findall pattern text = mm # rest"
    using findall_first [OF before here at(3)] by blast
  have first: "\<forall>i' n'. decimal_at text i' n' \<longrightarrow> j \<le> i' \<and> (i' = j \<longrightarrow> n' \<le> length mm)"
  proof (intro allI impI)
    fix i' n' assume d: "decimal_at text i' n'"
    then obtain m' where m': "decimal_prefix (drop i' text) = Some m'" "n' \<le> length m'"
      using decimal_at_prefix by blast
    then have "j \<le> i'" using least [of i'] by simp
    moreover have "i' = j \<longrightarrow> n' \<le> length mm" using m' mm by auto
    ultimately show "j \<le> i' \<and> (i' = j \<longrightarrow> n' \<le> length mm)" by simp
  qed
  have "bench e bench_function parameter cli_repo = Inr (py_float mm)"
    using out fa by (simp add: bench_def)
  moreover have "is_decimal mm" using mm by (rule decimal_prefix_sound(1))
  ultimately have "bench e bench_function parameter cli_repo = Inr (decimal_value mm)"
    by (simp add: py_float_decimal_value)
  then have "bench e bench_function parameter cli_repo
      = Inr (decimal_value (take (length mm) (drop j text)))" using at(2) by simp
  then show ?thesis using at(1) first by blast
qed

theorem bench_first_decimal_witness:
  "check_output env_time
       [''cargo'', ''run'', ''--release'', ''bench'', ''sort_vec'', str_int 7] ''cli''
     = Inr ''time: 12.345 ms''
   \<and> decimal_at ''time: 12.345 ms'' 6 6
   \<and> (\<exists>j m. decimal_at ''time: 12.345 ms'' j m
         \<and> (\<forall>i' n'. decimal_at ''time: 12.345 ms'' i' n' \<longrightarrow> j \<le> i' \<and> (i' = j \<longrightarrow> n' \<le> m))
         \<and> bench env_time ''sort_vec'' 7 ''cli''
             = Inr (decimal_value (take m (drop j ''time: 12.345 ms''))))
   \<and> decimal_value (take 6 (drop 6 ''time: 12.345 ms'')) = 12.345
   \<and> bench env_time ''sort_vec'' 7 ''cli'' = Inr 12.345"
proof -
  have h1: "check_output env_time
       [''cargo'', ''run'', ''--release'', ''bench'', ''sort_vec'', str_int 7] ''cli''
     = Inr ''time: 12.345 ms''" by (simp add: env_time_def)
  have h2: "decimal_at ''time: 12.345 ms'' 6 6"
    by (simp add: decimal_at_def is_decimal_def is_digit_def)
  note ex = bench_first_decimal [OF h1 h2]
  have "findall pattern ''time: 12.345 ms'' = [''12.345'']"
    by (simp add: pattern_def is_digit_def)
  moreover have "py_float ''12.345'' = 12.345"
    by (simp add: py_float_def is_digit_def nat_of_digits_def digit_val_def)
  ultimately have val: "bench env_time ''sort_vec'' 7 ''cli'' = Inr 12.345"
    by (simp add: bench_def env_time_def)
  have dv: "decimal_value (take 6 (drop 6 ''time: 12.345 ms'')) = 12.345"
    by (simp add: decimal_value_def digit_number_def)
  show ?thesis using h1 h2 ex dv val by blast
qed

text \<open>
  C8. For every benchmark output text that contains no decimal number, \<open>bench\<close> fails:
  indexing the empty list of matches raises \<^verbatim>\<open>IndexError\<close>; no default value is
  returned.
\<close>

theorem bench_no_decimal:
  assumes out: "check_output e
                  [''cargo'', ''run'', ''--release'', ''bench'', bench_function, str_int parameter]
                  cli_repo = Inr text"
    and none: "\<forall>i n. \<not> decimal_at text i n"
  shows "bench e bench_function parameter cli_repo = Inl IndexError"
proof -
  have "\<forall>i\<le>length text. match_here pattern (drop i text) = None"
  proof (intro allI impI)
    fix i
    show "match_here pattern (drop i text) = None"
    proof (cases "decimal_prefix (drop i text)")
      case None
      then show ?thesis by (simp add: match_pattern)
    next
      case (Some m)
      then have "decimal_at text i (length m)" by (rule prefix_decimal_at(1))
      then show ?thesis using none by blast
    qed
  qed
  then have "findall pattern text = []" by (rule findall_none)
  then show ?thesis using out by (simp add: bench_def)
qed

theorem bench_no_decimal_witness:
  "check_output env_none
       [''cargo'', ''run'', ''--release'', ''bench'', ''sort_vec'', str_int 7] ''cli''
     = Inr ''no numbers here''
   \<and> (\<forall>i n. \<not> decimal_at ''no numbers here'' i n)
   \<and> bench env_none ''sort_vec'' 7 ''cli'' = Inl IndexError"
proof -
  have h1: "check_output env_none
       [''cargo'', ''run'', ''--release'', ''bench'', ''sort_vec'', str_int 7] ''cli''
     = Inr ''no numbers here''" by (simp add: env_none_def)
  have "\<not> (\<exists>c \<in> set ''no numbers here''. is_digit c)" by (simp add: is_digit_def)
  then have h2: "\<forall>i n. \<not> decimal_at ''no numbers here'' i n"
    using decimal_at_has_digit by blast
  show ?thesis using h1 h2 bench_no_decimal [OF h1 h2] by blast
qed

subsection \<open>The configuration\<close>

text \<open>
  C9. When \<^verbatim>\<open>config.json\<close> does not exist, or the benchmark name is not a key of its
  \<open>benches\<close> mapping, \<open>load_bench_function_data\<close> fails (\<^verbatim>\<open>open\<close> raises
  \<^verbatim>\<open>FileNotFoundError\<close>, the subscription raises \<^verbatim>\<open>KeyError\<close>: the two conditions
  the specification files under its ConfigKeyMissing kind) and returns no configuration.
\<close>

theorem load_bench_function_data_fails:
  "(config_json e = NoFile \<longrightarrow>
      load_bench_function_data e bench_function = Inl FileNotFoundError)
   \<and> (config_json e = Document config \<and> getitem config ''benches'' = Inr (PDict benches)
        \<and> bench_function \<notin> fst ` set benches \<longrightarrow>
      load_bench_function_data e bench_function = Inl (KeyError bench_function))"
proof (intro conjI impI)
  assume "config_json e = NoFile"
  then show "load_bench_function_data e bench_function = Inl FileNotFoundError"
    by (simp add: load_bench_function_data_def)
next
  assume a: "config_json e = Document config \<and> getitem config ''benches'' = Inr (PDict benches)
        \<and> bench_function \<notin> fst ` set benches"
  then have "map_of benches bench_function = None" by (simp add: map_of_eq_None_iff)
  then show "load_bench_function_data e bench_function = Inl (KeyError bench_function)"
    using a by (simp add: load_bench_function_data_def)
qed

theorem load_bench_function_data_fails_witness:
  "config_json env_time = NoFile
   \<and> load_bench_function_data env_time ''sort_vec'' = Inl FileNotFoundError
   \<and> config_json env_elapsed = Document config_sort_vec
   \<and> getitem config_sort_vec ''benches''
       = Inr (PDict [(''sort_vec'',
            PDict [(''parameter'', PStr ''size''), (''output'', PStr ''time_ms'')])])
   \<and> ''hash_map'' \<notin> fst ` set [(''sort_vec'',
            PDict [(''parameter'', PStr ''size''), (''output'', PStr ''time_ms'')])]
   \<and> load_bench_function_data env_elapsed ''hash_map'' = Inl (KeyError ''hash_map'')"
proof -
  let ?benches = "[(''sort_vec'',
            PDict [(''parameter'', PStr ''size''), (''output'', PStr ''time_ms'')])]"
  have h1: "config_json env_time = NoFile" by (simp add: env_time_def)
  have h2: "config_json env_elapsed = Document config_sort_vec" by (simp add: env_elapsed_def)
  have h3: "getitem config_sort_vec ''benches'' = Inr (PDict ?benches)"
    by (simp add: config_sort_vec_def)
  have h4: "''hash_map'' \<notin> fst ` set ?benches" by simp
  have a: "load_bench_function_data env_time ''sort_vec'' = Inl FileNotFoundError"
    using load_bench_function_data_fails [of env_time "''sort_vec''"] h1 by blast
  have b: "load_bench_function_data env_elapsed ''hash_map'' = Inl (KeyError ''hash_map'')"
    using load_bench_function_data_fails [of env_elapsed "''hash_map''" config_sort_vec ?benches]
      h2 h3 h4 by blast
  show ?thesis using h1 h2 h3 h4 a b by blast
qed

subsection \<open>One sample, end to end\<close>

lemma findall_elapsed: "findall pattern ''elapsed: 3.21s'' = [''3.21'']"
  by (simp add: pattern_def is_digit_def)

lemma py_float_321: "py_float ''3.21'' = 3.21"
  by (simp add: py_float_def is_digit_def nat_of_digits_def digit_val_def)

text \<open>
  C1. With a configuration whose entry for the function names the columns "size" and
  "time\_ms", and a benchmark that prints "elapsed: 3.21s" whatever its arguments,
  \<open>sample_and_bench\<close> for \<open>min < max\<close> returns exactly the dictionary
  \<open>{size: p, time_ms: 3.21}\<close>, in this key order, with \<open>min \<le> p < max\<close>.
\<close>

theorem sample_and_bench_result:
  assumes range: "min_value < max_value"
    and out: "\<forall>args cwd. check_output e args cwd = Inr ''elapsed: 3.21s''"
    and conf: "config_json e = Document config"
    and benches: "getitem config ''benches'' = Inr benches"
    and entry: "getitem benches bench_function = Inr entry"
    and par: "getitem entry ''parameter'' = Inr (PStr ''size'')"
    and outp: "getitem entry ''output'' = Inr (PStr ''time_ms'')"
  shows "\<exists>p. sample_and_bench e cli_repo bench_function min_value max_value i
              = Inr ([(PStr ''size'', PInt p), (PStr ''time_ms'', PFloat 3.21)], Suc i)
            \<and> min_value \<le> p \<and> p < max_value"
proof -
  obtain p where s: "sample e min_value max_value 0 i = Inr (p, Suc i)"
    and p: "min_value \<le> p" "p < max_value"
    using sample_value [OF range] by blast
  have b: "bench e bench_function p cli_repo = Inr 3.21"
    using out by (simp add: bench_def findall_elapsed py_float_321 del: findall.simps)
  have l: "load_bench_function_data e bench_function = Inr entry"
    using conf benches entry by (simp add: load_bench_function_data_def)
  have "sample_and_bench e cli_repo bench_function min_value max_value i
      = Inr ([(PStr ''size'', PInt p), (PStr ''time_ms'', PFloat 3.21)], Suc i)"
    by (simp add: sample_and_bench_def s b l par outp dict_display_def)
  then show ?thesis using p by blast
qed

theorem sample_and_bench_result_witness:
  "(3::int) < 10
   \<and> (\<forall>args cwd. check_output env_elapsed args cwd = Inr ''elapsed: 3.21s'')
   \<and> config_json env_elapsed = Document config_sort_vec
   \<and> getitem config_sort_vec ''benches''
       = Inr (PDict [(''sort_vec'',
            PDict [(''parameter'', PStr ''size''), (''output'', PStr ''time_ms'')])])
   \<and> getitem (PDict [(''sort_vec'',
            PDict [(''parameter'', PStr ''size''), (''output'', PStr ''time_ms'')])]) ''sort_vec''
       = Inr (PDict [(''parameter'', PStr ''size''), (''output'', PStr ''time_ms'')])
   \<and> (\<exists>p. sample_and_bench env_elapsed ''cli'' ''sort_vec'' 3 10 0
              = Inr ([(PStr ''size'', PInt p), (PStr ''time_ms'', PFloat 3.21)], Suc 0)
            \<and> 3 \<le> p \<and> p < 10)"
proof -
  let ?entry = "PDict [(''parameter'', PStr ''size''), (''output'', PStr ''time_ms'')]"
  let ?benches = "PDict [(''sort_vec'', ?entry)]"
  have h1: "(3::int) < 10" by simp
  have h2: "\<forall>args cwd. check_output env_elapsed args cwd = Inr ''elapsed: 3.21s''"
    by (simp add: env_elapsed_def)
  have h3: "config_json env_elapsed = Document config_sort_vec" by (simp add: env_elapsed_def)
  have h4: "getitem config_sort_vec ''benches'' = Inr ?benches" by (simp add: config_sort_vec_def)
  have h5: "getitem ?benches ''sort_vec'' = Inr ?entry" by simp
  have h6: "getitem ?entry ''parameter'' = Inr (PStr ''size'')" by simp
  have h7: "getitem ?entry ''output'' = Inr (PStr ''time_ms'')" by simp
  note r = sample_and_bench_result [OF h1 h2 h3 h4 h5 h6 h7, of "''cli''" 0]
  show ?thesis using h1 h2 h3 h4 h5 r by blast
qed

subsection \<open>Initialising a dataset file\<close>

lemma load_sort_vec:
  "load_bench_function_data env_elapsed ''sort_vec''
     = Inr (PDict [(''parameter'', PStr ''size''), (''output'', PStr ''time_ms'')])"
  by (simp add: load_bench_function_data_def env_elapsed_def config_sort_vec_def)

lemma pair_set_eq:
  "set [a, b] = set [c, d] \<longleftrightarrow> (c = a \<and> d = b) \<or> (c = b \<and> d = a)"
  by (auto simp: doubleton_eq_iff)

lemma init_csv_existing:
  assumes "load_bench_function_data e bench_function = Inr entry"
    and "getitem entry ''parameter'' = Inr (PStr pname)"
    and "getitem entry ''output'' = Inr (PStr oname)"
    and "fs csv_file_path = Some (hdr # body)"
  shows "init_csv e csv_file_path bench_function fs =
     (if set [PStr pname, PStr oname] \<noteq> set hdr then (Inl (ValueError (HeadersMismatch hdr)), fs)
      else (Inr (), fs))"
  using assms by (simp add: init_csv_def read_csv_columns_def)

text \<open>
  C6. At a path where no file exists, \<open>init_csv\<close> creates a file that holds exactly the
  header row, the parameter name before the output name, and no data row.
\<close>

theorem init_csv_creates:
  assumes "load_bench_function_data e bench_function = Inr entry"
    and "getitem entry ''parameter'' = Inr (PStr pname)"
    and "getitem entry ''output'' = Inr (PStr oname)"
    and "fs csv_file_path = None"
  shows "init_csv e csv_file_path bench_function fs
           = (Inr (), fs(csv_file_path \<mapsto> [[PStr pname, PStr oname]]))"
  using assms by (simp add: init_csv_def)

theorem init_csv_creates_witness:
  "load_bench_function_data env_elapsed ''sort_vec''
     = Inr (PDict [(''parameter'', PStr ''size''), (''output'', PStr ''time_ms'')])
   \<and> fs_empty ''data/sort_vec/abc.csv'' = None
   \<and> init_csv env_elapsed ''data/sort_vec/abc.csv'' ''sort_vec'' fs_empty
       = (Inr (), fs_empty(''data/sort_vec/abc.csv'' \<mapsto> [[PStr ''size'', PStr ''time_ms'']]))"
proof -
  let ?entry = "PDict [(''parameter'', PStr ''size''), (''output'', PStr ''time_ms'')]"
  have h2: "getitem ?entry ''parameter'' = Inr (PStr ''size'')" by simp
  have h3: "getitem ?entry ''output'' = Inr (PStr ''time_ms'')" by simp
  have h4: "fs_empty ''data/sort_vec/abc.csv'' = None" by (simp add: fs_empty_def)
  note r = init_csv_creates [where fs = fs_empty and csv_file_path = "''data/sort_vec/abc.csv''", OF load_sort_vec h2 h3 h4]
  show ?thesis using load_sort_vec h4 r by blast
qed

text \<open>
  C5. On a file whose two header names are the expected pair, in either order,
  \<open>init_csv\<close> succeeds and leaves every file, this one with its header and data rows
  included, as it was.
\<close>

theorem init_csv_idempotent:
  assumes "load_bench_function_data e bench_function = Inr entry"
    and "getitem entry ''parameter'' = Inr (PStr pname)"
    and "getitem entry ''output'' = Inr (PStr oname)"
    and "fs csv_file_path = Some ([h1, h2] # body)"
    and "(h1 = PStr pname \<and> h2 = PStr oname) \<or> (h1 = PStr oname \<and> h2 = PStr pname)"
  shows "init_csv e csv_file_path bench_function fs = (Inr (), fs)"
proof -
  have "set [PStr pname, PStr oname] = set [h1, h2]" using assms(5) unfolding pair_set_eq by blast
  then show ?thesis using init_csv_existing [where fs = fs and csv_file_path = csv_file_path, OF assms(1-4)] by simp
qed

theorem init_csv_idempotent_witness:
  "load_bench_function_data env_elapsed ''sort_vec''
     = Inr (PDict [(''parameter'', PStr ''size''), (''output'', PStr ''time_ms'')])
   \<and> fs_swapped ''data/sort_vec/abc.csv''
       = Some ([PStr ''time_ms'', PStr ''size''] # [[PFloat 1.5, PInt 10]])
   \<and> ((PStr ''time_ms'' = PStr ''size'' \<and> PStr ''size'' = PStr ''time_ms'')
         \<or> (PStr ''time_ms'' = PStr ''time_ms'' \<and> PStr ''size'' = PStr ''size''))
   \<and> init_csv env_elapsed ''data/sort_vec/abc.csv'' ''sort_vec'' fs_swapped = (Inr (), fs_swapped)"
proof -
  let ?entry = "PDict [(''parameter'', PStr ''size''), (''output'', PStr ''time_ms'')]"
  have h2: "getitem ?entry ''parameter'' = Inr (PStr ''size'')" by simp
  have h3: "getitem ?entry ''output'' = Inr (PStr ''time_ms'')" by simp
  have h4: "fs_swapped ''data/sort_vec/abc.csv''
       = Some ([PStr ''time_ms'', PStr ''size''] # [[PFloat 1.5, PInt 10]])"
    by (simp add: fs_swapped_def)
  have h5: "(PStr ''time_ms'' = PStr ''size'' \<and> PStr ''size'' = PStr ''time_ms'')
         \<or> (PStr ''time_ms'' = PStr ''time_ms'' \<and> PStr ''size'' = PStr ''size'')" by simp
  note r = init_csv_idempotent [where fs = fs_swapped and csv_file_path = "''data/sort_vec/abc.csv''", OF load_sort_vec h2 h3 h4 h5]
  show ?thesis using load_sort_vec h4 h5 r by blast
qed

text \<open>
  C4. On an existing file whose two header names, as an unordered pair, differ from the
  expected pair, \<open>init_csv\<close> raises the \<^verbatim>\<open>ValueError\<close> that names the existing headers
  (the specification's SchemaMismatch), and the files are unchanged.
\<close>

theorem init_csv_schema_mismatch:
  assumes "load_bench_function_data e bench_function = Inr entry"
    and "getitem entry ''parameter'' = Inr (PStr pname)"
    and "getitem entry ''output'' = Inr (PStr oname)"
    and "fs csv_file_path = Some ([h1, h2] # body)"
    and "\<not> ((h1 = PStr pname \<and> h2 = PStr oname) \<or> (h1 = PStr oname \<and> h2 = PStr pname))"
  shows "init_csv e csv_file_path bench_function fs
           = (Inl (ValueError (HeadersMismatch [h1, h2])), fs)"
proof -
  have "set [PStr pname, PStr oname] \<noteq> set [h1, h2]" using assms(5) unfolding pair_set_eq by blast
  then show ?thesis using init_csv_existing [where fs = fs and csv_file_path = csv_file_path, OF assms(1-4)] by simp
qed

theorem init_csv_schema_mismatch_witness:
  "load_bench_function_data env_elapsed ''sort_vec''
     = Inr (PDict [(''parameter'', PStr ''size''), (''output'', PStr ''time_ms'')])
   \<and> fs_other ''data/sort_vec/abc.csv''
       = Some ([PStr ''size'', PStr ''seconds''] # [[PInt 10, PFloat 1.5]])
   \<and> \<not> ((PStr ''size'' = PStr ''size'' \<and> PStr ''seconds'' = PStr ''time_ms'')
         \<or> (PStr ''size'' = PStr ''time_ms'' \<and> PStr ''seconds'' = PStr ''size''))
   \<and> init_csv env_elapsed ''data/sort_vec/abc.csv'' ''sort_vec'' fs_other
       = (Inl (ValueError (HeadersMismatch [PStr ''size'', PStr ''seconds''])), fs_other)"
proof -
  let ?entry = "PDict [(''parameter'', PStr ''size''), (''output'', PStr ''time_ms'')]"
  have h2: "getitem ?entry ''parameter'' = Inr (PStr ''size'')" by simp
  have h3: "getitem ?entry ''output'' = Inr (PStr ''time_ms'')" by simp
  have h4: "fs_other ''data/sort_vec/abc.csv''
       = Some ([PStr ''size'', PStr ''seconds''] # [[PInt 10, PFloat 1.5]])"
    by (simp add: fs_other_def)
  have h5: "\<not> ((PStr ''size'' = PStr ''size'' \<and> PStr ''seconds'' = PStr ''time_ms'')
         \<or> (PStr ''size'' = PStr ''time_ms'' \<and> PStr ''seconds'' = PStr ''size''))" by simp
  note r = init_csv_schema_mismatch [where fs = fs_other and csv_file_path = "''data/sort_vec/abc.csv''", OF load_sort_vec h2 h3 h4 h5]
  show ?thesis using load_sort_vec h4 h5 r by blast
qed

subsection \<open>Appending to a dataset file\<close>

lemma rows_zip:
  assumes "length xs = length ys"
  shows "map (\<lambda>j. [xs ! j, ys ! j]) [0..<length xs] = map2 (\<lambda>x y. [x, y]) xs ys"
  using assms by (intro nth_equalityI) simp_all

lemma DataFrame_columns:
  assumes "length xs = length ys"
  shows "DataFrame [(pname, PList xs), (oname, PList ys)] = Inr (map2 (\<lambda>x y. [x, y]) xs ys)"
proof -
  have "List.map_filter (\<lambda>(k, v). column_length v) [(pname, PList xs), (oname, PList ys)]
      = [length xs, length ys]"
    by (simp add: List.map_filter_simps)
  then have "DataFrame [(pname, PList xs), (oname, PList ys)]
      = Inr (map (\<lambda>j. [xs ! j, ys ! j]) [0..<length xs])"
    using assms by (simp add: DataFrame_def)
  then show ?thesis using rows_zip [OF assms] by simp
qed

lemma write_into_csv_columns:
  assumes "length xs = length ys" and "fs csv_file_path = Some rows"
  shows "write_into_csv [(pname, PList xs), (oname, PList ys)] csv_file_path fs
           = (Inr (), fs(csv_file_path \<mapsto> rows @ map2 (\<lambda>x y. [x, y]) xs ys))"
  using assms by (simp add: write_into_csv_def DataFrame_columns)

text \<open>
  C3. The claim is that two calls, with the records \<open>{param: 10, output: 1.5}\<close> and
  \<open>{param: 20, output: 2.7}\<close>, leave the header row followed by the two data rows. The
  code does not do that: for a dictionary whose values are all scalars, the shape of a
  record and the shape \<open>sample_and_bench\<close> returns, \<^verbatim>\<open>pd.DataFrame\<close> raises
  \<^verbatim>\<open>ValueError\<close>, before the file is opened. Both calls fail and the initialised file
  still holds its header row only.
\<close>

theorem write_into_csv_scalar_record:
  "write_into_csv [(PStr ''size'', PInt 10), (PStr ''time_ms'', PFloat 1.5)]
       ''data/sort_vec/abc.csv'' fs_header
     = (Inl (ValueError AllScalarValues), fs_header)
   \<and> write_into_csv [(PStr ''size'', PInt 20), (PStr ''time_ms'', PFloat 2.7)]
       ''data/sort_vec/abc.csv'' fs_header
     = (Inl (ValueError AllScalarValues), fs_header)
   \<and> fs_header ''data/sort_vec/abc.csv'' = Some [[PStr ''size'', PStr ''time_ms'']]"
  by (simp add: write_into_csv_def DataFrame_def List.map_filter_simps fs_header_def)

text \<open>
  What the function does for a dictionary of columns: called twice on an initialised
  file, with \<open>{param: [x1], output: [y1]}\<close> and then \<open>{param: [x2], output: [y2]}\<close>,
  it leaves the header and the earlier rows untouched, followed by exactly the two rows
  \<open>(x1, y1)\<close> and \<open>(x2, y2)\<close> in this order, also when the two rows are equal.
\<close>

theorem write_into_csv_twice:
  assumes "fs csv_file_path = Some (header # body)" and "pname \<noteq> oname"
  shows "\<exists>fs1. write_into_csv [(pname, PList [x1]), (oname, PList [y1])] csv_file_path fs = (Inr (), fs1)
           \<and> write_into_csv [(pname, PList [x2]), (oname, PList [y2])] csv_file_path fs1
               = (Inr (), fs(csv_file_path \<mapsto> header # body @ [[x1, y1], [x2, y2]]))"
proof -
  let ?fs1 = "fs(csv_file_path \<mapsto> (header # body) @ [[x1, y1]])"
  have 1: "write_into_csv [(pname, PList [x1]), (oname, PList [y1])] csv_file_path fs = (Inr (), ?fs1)"
    using write_into_csv_columns [of "[x1]" "[y1]" fs csv_file_path "header # body" pname oname]
      assms(1)
    by simp
  have "?fs1 csv_file_path = Some ((header # body) @ [[x1, y1]])" by simp
  then have "write_into_csv [(pname, PList [x2]), (oname, PList [y2])] csv_file_path ?fs1
      = (Inr (), ?fs1(csv_file_path \<mapsto> ((header # body) @ [[x1, y1]]) @ [[x2, y2]]))"
    using write_into_csv_columns [of "[x2]" "[y2]" ?fs1 csv_file_path _ pname oname] by simp
  then show ?thesis using 1 by simp
qed

theorem write_into_csv_twice_witness:
  "fs_header ''data/sort_vec/abc.csv'' = Some ([PStr ''size'', PStr ''time_ms''] # [])
   \<and> PStr ''size'' \<noteq> PStr ''time_ms''
   \<and> (\<exists>fs1. write_into_csv [(PStr ''size'', PList [PInt 10]), (PStr ''time_ms'', PList [PFloat 1.5])]
               ''data/sort_vec/abc.csv'' fs_header = (Inr (), fs1)
         \<and> write_into_csv [(PStr ''size'', PList [PInt 20]), (PStr ''time_ms'', PList [PFloat 2.7])]
               ''data/sort_vec/abc.csv'' fs1
             = (Inr (), fs_header(''data/sort_vec/abc.csv'' \<mapsto>
                  [PStr ''size'', PStr ''time_ms'']
                    # [] @ [[PInt 10, PFloat 1.5], [PInt 20, PFloat 2.7]])))"
proof -
  have h: "fs_header ''data/sort_vec/abc.csv'' = Some ([PStr ''size'', PStr ''time_ms''] # [])"
    by (simp add: fs_header_def)
  have n: "PStr ''size'' \<noteq> PStr ''time_ms''" by simp
  show ?thesis
    using h n
      write_into_csv_twice [where fs = fs_header and csv_file_path = "''data/sort_vec/abc.csv''",
        OF h n]
    by blast
qed

text \<open>
  C10. The claim is that the record \<open>sample_and_bench\<close> produces, keyed parameter then
  output, is appended in its key order without a look at the header, so that on a file
  with the header in output-then-parameter order the parameter value lands under the
  output name. The code does not get that far: the record is a dictionary of two scalars,
  which \<^verbatim>\<open>pd.DataFrame\<close> refuses (the defect of C3). On the file with the swapped
  header, which \<open>init_csv\<close> accepts, the record of one sample is not appended and the
  file is unchanged.
\<close>

theorem write_into_csv_sample_record:
  "sample_and_bench env_elapsed ''cli'' ''sort_vec'' 3 10 0
     = Inr ([(PStr ''size'', PInt 3), (PStr ''time_ms'', PFloat 3.21)], Suc 0)
   \<and> init_csv env_elapsed ''data/sort_vec/abc.csv'' ''sort_vec'' fs_swapped = (Inr (), fs_swapped)
   \<and> write_into_csv [(PStr ''size'', PInt 3), (PStr ''time_ms'', PFloat 3.21)]
         ''data/sort_vec/abc.csv'' fs_swapped
       = (Inl (ValueError AllScalarValues), fs_swapped)"
proof -
  have s: "sample env_elapsed 3 10 0 0 = Inr (3, Suc 0)"
    by (simp add: sample_uniform env_elapsed_def)
  have b: "bench env_elapsed ''sort_vec'' 3 ''cli'' = Inr 3.21"
    by (simp add: bench_def env_elapsed_def findall_elapsed py_float_321 del: findall.simps)
  have 1: "sample_and_bench env_elapsed ''cli'' ''sort_vec'' 3 10 0
     = Inr ([(PStr ''size'', PInt 3), (PStr ''time_ms'', PFloat 3.21)], Suc 0)"
    by (simp add: sample_and_bench_def s b load_sort_vec dict_display_def)
  have 2: "init_csv env_elapsed ''data/sort_vec/abc.csv'' ''sort_vec'' fs_swapped
      = (Inr (), fs_swapped)"
    by (simp add: init_csv_def load_sort_vec read_csv_columns_def fs_swapped_def insert_commute)
  have 3: "write_into_csv [(PStr ''size'', PInt 3), (PStr ''time_ms'', PFloat 3.21)]
         ''data/sort_vec/abc.csv'' fs_swapped
       = (Inl (ValueError AllScalarValues), fs_swapped)"
    by (simp add: write_into_csv_def DataFrame_def List.map_filter_simps)
  show ?thesis using 1 2 3 by simp
qed

text \<open>
  What the function does for a dictionary of columns keyed parameter then output: it
  writes each row in the key order and does not read the header of the file, so what it
  appends is the same whatever the file holds. On a file whose header lists the output
  name before the parameter name, every appended row has the parameter value in the first
  column, under the output name, and the output value under the parameter name.
\<close>

theorem write_into_csv_key_order:
  assumes "load_bench_function_data e bench_function = Inr entry"
    and "getitem entry ''parameter'' = Inr (PStr pname)"
    and "getitem entry ''output'' = Inr (PStr oname)"
    and "pname \<noteq> oname"
    and "fs csv_file_path = Some ([PStr oname, PStr pname] # body)"
    and "length xs = length ys"
  shows "init_csv e csv_file_path bench_function fs = (Inr (), fs)
       \<and> write_into_csv [(PStr pname, PList xs), (PStr oname, PList ys)] csv_file_path fs
           = (Inr (), fs(csv_file_path \<mapsto>
                ([PStr oname, PStr pname] # body) @ map2 (\<lambda>x y. [x, y]) xs ys))"
proof -
  have "set [PStr pname, PStr oname] = set [PStr oname, PStr pname]" by auto
  then have "init_csv e csv_file_path bench_function fs = (Inr (), fs)"
    using init_csv_existing [where fs = fs and csv_file_path = csv_file_path, OF assms(1-3,5)]
    by simp
  then show ?thesis
    using write_into_csv_columns [where fs = fs and csv_file_path = csv_file_path, OF assms(6,5)]
    by simp
qed

theorem write_into_csv_key_order_witness:
  "load_bench_function_data env_elapsed ''sort_vec''
     = Inr (PDict [(''parameter'', PStr ''size''), (''output'', PStr ''time_ms'')])
   \<and> fs_swapped ''data/sort_vec/abc.csv''
       = Some ([PStr ''time_ms'', PStr ''size''] # [[PFloat 1.5, PInt 10]])
   \<and> ''size'' \<noteq> ''time_ms''
   \<and> length [PInt 7] = length [PFloat 3.21]
   \<and> init_csv env_elapsed ''data/sort_vec/abc.csv'' ''sort_vec'' fs_swapped = (Inr (), fs_swapped)
   \<and> write_into_csv [(PStr ''size'', PList [PInt 7]), (PStr ''time_ms'', PList [PFloat 3.21])]
         ''data/sort_vec/abc.csv'' fs_swapped
       = (Inr (), fs_swapped(''data/sort_vec/abc.csv'' \<mapsto>
            [[PStr ''time_ms'', PStr ''size''], [PFloat 1.5, PInt 10], [PInt 7, PFloat 3.21]]))"
proof -
  let ?entry = "PDict [(''parameter'', PStr ''size''), (''output'', PStr ''time_ms'')]"
  have h2: "getitem ?entry ''parameter'' = Inr (PStr ''size'')" by simp
  have h3: "getitem ?entry ''output'' = Inr (PStr ''time_ms'')" by simp
  have h4: "fs_swapped ''data/sort_vec/abc.csv''
       = Some ([PStr ''time_ms'', PStr ''size''] # [[PFloat 1.5, PInt 10]])"
    by (simp add: fs_swapped_def)
  have h5: "length [PInt 7] = length [PFloat 3.21]" by simp
  have n: "''size'' \<noteq> ''time_ms''" by simp
  note r = write_into_csv_key_order [where fs = fs_swapped
      and csv_file_path = "''data/sort_vec/abc.csv''", OF load_sort_vec h2 h3 n h4 h5]
  show ?thesis using load_sort_vec h4 h5 n r by simp
qed

end
